theory Spec2Isabelle
  imports Main "HOL-Library.Word"
begin

unbundle bit_operations_syntax

section \<open>rcswitch: codeword encoder, waveform transmitter and switch controller\<close>

text \<open>
  A shallow embedding of \<^verbatim>\<open>rcswitch.go\<close>. Go strings are byte sequences, modelled
  by \<^typ>\<open>string\<close> (a list of 8-bit characters): \<^verbatim>\<open>len(s)\<close> is \<^term>\<open>length s\<close> and
  \<^verbatim>\<open>a + b\<close> is \<^term>\<open>a @ b\<close>. Go's \<^verbatim>\<open>int\<close> and \<^verbatim>\<open>time.Duration\<close> are 64-bit.
  They are modelled by \<^typ>\<open>int\<close>: the package compares them, counts the repeats up
  to a bound of that type, and multiplies the hold times of a waveform by the pulse
  length, which for the six protocols of the table stays far below \<open>2 ^ 63\<close>. The
  unsigned values on which the package does bit operations are \<^typ>\<open>64 word\<close>. The
  mutex of the controller serialises calls; the model is the sequential behaviour of
  one call after another.
\<close>

subsection \<open>Data model\<close>

record waveform =
  high :: int
  low :: int

record protocol =
  pulseLen :: int
  syncBit :: waveform
  zeroBit :: waveform
  oneBit :: waveform
  inverted :: bool

definition wave :: "int \<Rightarrow> int \<Rightarrow> waveform" where
  "wave h l = \<lparr>high = h, low = l\<rparr>"

definition protocols :: "protocol list" where
  "protocols =
    [\<lparr>pulseLen = 350, syncBit = wave 1 31, zeroBit = wave 1 3, oneBit = wave 3 1, inverted = False\<rparr>,
     \<lparr>pulseLen = 650, syncBit = wave 1 10, zeroBit = wave 1 2, oneBit = wave 2 1, inverted = False\<rparr>,
     \<lparr>pulseLen = 100, syncBit = wave 30 71, zeroBit = wave 4 11, oneBit = wave 9 6, inverted = False\<rparr>,
     \<lparr>pulseLen = 380, syncBit = wave 1 6, zeroBit = wave 1 3, oneBit = wave 3 1, inverted = False\<rparr>,
     \<lparr>pulseLen = 500, syncBit = wave 6 14, zeroBit = wave 1 2, oneBit = wave 2 1, inverted = False\<rparr>,
     \<lparr>pulseLen = 450, syncBit = wave 23 1, zeroBit = wave 1 2, oneBit = wave 2 1, inverted = True\<rparr>]"

text \<open>
  The pin is an output the package only writes to. It is modelled by the trace of what
  a transmission does through it, oldest first: a level write (\<^verbatim>\<open>pin.Out\<close>, whose
  error result the code drops) or a hold (\<^verbatim>\<open>time.Sleep\<close>, in nanoseconds).
\<close>

datatype level = Low | High

datatype event = Out level | Sleep int

type_synonym pin = "event list"

datatype num_err = ErrSyntax | ErrRange

text \<open>
  One constructor per error the package returns. \<open>NumError fn input cause\<close> is
  \<^verbatim>\<open>*strconv.NumError\<close>, which \<^verbatim>\<open>getCodeWordC\<close> passes on unchanged.
\<close>

datatype error =
    ErrRepeat
  | ErrProtocol int int
  | ErrDeviceNotInt
  | ErrNotSupported
  | ErrGroupLen
  | ErrDeviceLen
  | ErrRangeB
  | ErrFamilyLen
  | ErrGroupC
  | ErrDeviceC
  | ErrGroupSingleD
  | ErrGroupD
  | ErrDeviceD
  | NumError string string num_err

record RCSwitch =
  pin :: pin
  protocol :: protocol
  nrRepeat :: int
  isOn :: "string \<rightharpoonup> bool"

subsection \<open>Configuration\<close>

definition SetPin :: "RCSwitch \<Rightarrow> pin \<Rightarrow> RCSwitch" where
  "SetPin s p = s\<lparr>pin := p\<rparr>"

definition SetRepeat :: "RCSwitch \<Rightarrow> int \<Rightarrow> RCSwitch \<times> error option" where
  "SetRepeat s n =
     (if n \<le> 0 then (s, Some ErrRepeat)
      else (s\<lparr>nrRepeat := n\<rparr>, None))"

definition SetProtocol :: "RCSwitch \<Rightarrow> int \<Rightarrow> RCSwitch \<times> error option" where
  "SetProtocol s n =
     (if n \<le> 0 \<or> n > int (length protocols)
      then (s, Some (ErrProtocol n (int (length protocols))))
      else (s\<lparr>protocol := protocols ! nat (n - 1)\<rparr>, None))"

text \<open>
  \<^verbatim>\<open>NewRCSwitch\<close> starts from the zero value of the struct with repeat count 10 and
  an empty map, then sets the pin and protocol 1 (dropping \<^verbatim>\<open>SetProtocol\<close>'s result).
\<close>

definition NewRCSwitch :: "pin \<Rightarrow> RCSwitch" where
  "NewRCSwitch p =
     fst (SetProtocol
       (SetPin \<lparr>pin = [],
                protocol = \<lparr>pulseLen = 0, syncBit = wave 0 0, zeroBit = wave 0 0,
                            oneBit = wave 0 0, inverted = False\<rparr>,
                nrRepeat = 10, isOn = Map.empty\<rparr> p) 1)"

subsection \<open>Ranging over a string\<close>

text \<open>
  \<^verbatim>\<open>for _, c := range s\<close> does not visit bytes: it decodes UTF-8 and yields one rune
  (code point) per step; a byte that starts no valid encoding yields \<^verbatim>\<open>U+FFFD\<close> and
  the loop moves on by one byte. \<open>decodeRune\<close> is the decoding step
  (\<^verbatim>\<open>utf8.DecodeRuneInString\<close>: the rune and its width in bytes) and \<open>runes\<close> the
  sequence a \<^verbatim>\<open>range\<close> loop sees. Runes are their code points.
\<close>

definition RuneError :: nat where
  "RuneError = 0xFFFD"

definition byte :: "char \<Rightarrow> nat" where
  "byte c = of_char c"

fun decodeRune :: "string \<Rightarrow> nat \<times> nat" where
  "decodeRune [] = (RuneError, 0)"
| "decodeRune (c0 # cs) =
     (let s0 = byte c0 in
      if s0 < 0x80 then (s0, 1)
      else if s0 < 0xC2 \<or> 0xF4 < s0 then (RuneError, 1)
      else
        let sz = (if s0 < 0xE0 then 2 else if s0 < 0xF0 then 3 else 4 :: nat);
            lo = (if s0 = 0xE0 then 0xA0 else if s0 = 0xF0 then 0x90 else 0x80);
            hi = (if s0 = 0xED then 0x9F else if s0 = 0xF4 then 0x8F else 0xBF)
        in
          if length (c0 # cs) < sz then (RuneError, 1)
          else
            let s1 = byte (cs ! 0) in
            if s1 < lo \<or> hi < s1 then (RuneError, 1)
            else if sz \<le> 2 then ((s0 mod 32) * 64 + s1 mod 64, 2)
            else
              let s2 = byte (cs ! 1) in
              if s2 < 0x80 \<or> 0xBF < s2 then (RuneError, 1)
              else if sz \<le> 3 then ((s0 mod 16) * 4096 + (s1 mod 64) * 64 + s2 mod 64, 3)
              else
                let s3 = byte (cs ! 2) in
                if s3 < 0x80 \<or> 0xBF < s3 then (RuneError, 1)
                else ((s0 mod 8) * 262144 + (s1 mod 64) * 4096 + (s2 mod 64) * 64
                        + s3 mod 64, 4))"

function runes :: "string \<Rightarrow> nat list" where
  "runes [] = []"
| "runes (c # cs) =
     fst (decodeRune (c # cs)) # runes (drop (snd (decodeRune (c # cs))) (c # cs))"
  by pat_completeness auto
termination
  by (relation "measure length") (auto simp: Let_def)

definition rune :: "char \<Rightarrow> nat" where
  "rune c = of_char c"

subsection \<open>Number parsing (strconv)\<close>

text \<open>
  \<^verbatim>\<open>strconv.Atoi\<close> returns a value and an error; the package reads the value even
  when the error is set, so the model returns both. An optional sign is followed by
  decimal digits only. A character that is no digit is a syntax error with value 0;
  digits that leave the 64-bit range are a range error with the nearest bound.
  \<open>parseDigits\<close> is the digit loop of \<^verbatim>\<open>ParseUint\<close> for the given base and largest
  value: the character is checked first, then the overflow of the new value.
\<close>

definition digitVal :: "char \<Rightarrow> nat option" where
  "digitVal c =
     (let b = byte c in
      if 0x30 \<le> b \<and> b \<le> 0x39 then Some (b - 0x30)
      else if 0x61 \<le> b \<and> b \<le> 0x7A then Some (b - 0x61 + 10)
      else if 0x41 \<le> b \<and> b \<le> 0x5A then Some (b - 0x41 + 10)
      else None)"

fun parseDigits :: "nat \<Rightarrow> nat \<Rightarrow> nat \<Rightarrow> string \<Rightarrow> num_err + nat" where
  "parseDigits base maxVal n [] = Inr n"
| "parseDigits base maxVal n (c # cs) =
     (case digitVal c of
        None \<Rightarrow> Inl ErrSyntax
      | Some d \<Rightarrow>
          if base \<le> d then Inl ErrSyntax
          else if maxVal < n * base + d then Inl ErrRange
          else parseDigits base maxVal (n * base + d) cs)"

definition Atoi :: "string \<Rightarrow> int \<times> error option" where
  "Atoi s =
     (if s = [] then (0, Some (NumError ''Atoi'' s ErrSyntax))
      else
        let neg = (hd s = CHR ''-'');
            body = (if hd s = CHR ''+'' \<or> hd s = CHR ''-'' then tl s else s)
        in
          if body = [] then (0, Some (NumError ''Atoi'' s ErrSyntax))
          else
            (case parseDigits 10 (2 ^ 64 - 1) 0 body of
               Inl ErrSyntax \<Rightarrow> (0, Some (NumError ''Atoi'' s ErrSyntax))
             | Inl ErrRange \<Rightarrow>
                 (if neg then - (2 ^ 63) else 2 ^ 63 - 1, Some (NumError ''Atoi'' s ErrRange))
             | Inr un \<Rightarrow>
                 if \<not> neg \<and> 2 ^ 63 \<le> un
                 then (2 ^ 63 - 1, Some (NumError ''Atoi'' s ErrRange))
                 else if neg \<and> 2 ^ 63 < un
                 then (- (2 ^ 63), Some (NumError ''Atoi'' s ErrRange))
                 else (if neg then - int un else int un, None)))"

text \<open>
  \<^verbatim>\<open>strconv.ParseUint(s, 16, 8)\<close>: hexadecimal digits only (no prefix, no underscore,
  since the base is given), at most 255.
\<close>

definition ParseUint_16_8 :: "string \<Rightarrow> 64 word \<times> error option" where
  "ParseUint_16_8 s =
     (if s = [] then (0, Some (NumError ''ParseUint'' s ErrSyntax))
      else
        (case parseDigits 16 255 0 s of
           Inl ErrSyntax \<Rightarrow> (0, Some (NumError ''ParseUint'' s ErrSyntax))
         | Inl ErrRange \<Rightarrow> (255, Some (NumError ''ParseUint'' s ErrRange))
         | Inr n \<Rightarrow> (of_nat n, None)))"

subsection \<open>Codeword encoders\<close>

text \<open>Type A. The loop ranges over the runes of \<^verbatim>\<open>group + device\<close>.\<close>

fun loopA :: "nat list \<Rightarrow> string \<Rightarrow> string" where
  "loopA [] codeword = codeword"
| "loopA (b # bs) codeword =
     loopA bs (if b = rune CHR ''0'' then codeword @ ''F'' else codeword @ ''0'')"

definition getCodeWordA :: "string \<Rightarrow> string \<Rightarrow> bool \<Rightarrow> error + string" where
  "getCodeWordA grp device status =
     (if length grp \<noteq> 5 then Inl ErrGroupLen
      else if length device \<noteq> 5 then Inl ErrDeviceLen
      else
        let codeword = loopA (runes (grp @ device)) [] in
        Inr (if status then codeword @ ''0F'' else codeword @ ''F0''))"

text \<open>Type B. Each of the two loops runs \<open>i\<close> from 1 to 4.\<close>

fun loopB :: "int \<Rightarrow> int list \<Rightarrow> string \<Rightarrow> string" where
  "loopB v [] codeword = codeword"
| "loopB v (i # is) codeword =
     loopB v is (if v = i then codeword @ ''0'' else codeword @ ''F'')"

definition getCodeWordB :: "int \<Rightarrow> int \<Rightarrow> bool \<Rightarrow> error + string" where
  "getCodeWordB grp device status =
     (if grp < 1 \<or> 4 < grp \<or> device < 1 \<or> 4 < device then Inl ErrRangeB
      else
        let codeword = loopB grp [1, 2, 3, 4] [];
            codeword = loopB device [1, 2, 3, 4] codeword;
            codeword = codeword @ ''FFF''
        in Inr (if status then codeword @ ''F'' else codeword @ ''0''))"

text \<open>
  Type C. The first loop runs \<open>i\<close> from 0 to 3 and shifts \<open>f\<close> right by one bit
  each time. \<open>conf\<close> is the closure of \<^verbatim>\<open>getCodeWordC\<close>. In Go \<^verbatim>\<open>&\<close> binds tighter than
  \<^verbatim>\<open>==\<close>, so its two tests are \<^verbatim>\<open>(iu & 0x1) == 1\<close> and \<^verbatim>\<open>(iu & 0x2) == 1\<close>.
\<close>

definition conf :: "int \<Rightarrow> string" where
  "conf i =
     (let s = [];
          iu = (word_of_int i :: 64 word) - 1;
          s = (if iu AND 0x1 = 1 then s @ ''F'' else s @ ''0'');
          s = (if iu AND 0x2 = 1 then s @ ''F'' else s @ ''0'')
      in s)"

fun loopC :: "nat list \<Rightarrow> 64 word \<Rightarrow> string \<Rightarrow> string" where
  "loopC [] f codeword = codeword"
| "loopC (i # is) f codeword =
     loopC is (drop_bit 1 f) (if f AND 0x1 = 0x1 then codeword @ ''F'' else codeword @ ''0'')"

definition getCodeWordC :: "string \<Rightarrow> string \<Rightarrow> string \<Rightarrow> bool \<Rightarrow> error + string" where
  "getCodeWordC family grp device status =
     (if length family \<noteq> 1 then Inl ErrFamilyLen
      else case ParseUint_16_8 family of
        (f, Some err) \<Rightarrow> Inl err
      | (f, None) \<Rightarrow>
         (case Atoi grp of
            (g, Some err) \<Rightarrow> Inl err
          | (g, None) \<Rightarrow>
             if g < 1 \<or> 4 < g then Inl ErrGroupC
             else
               (case Atoi device of
                  (d, Some err) \<Rightarrow> Inl err
                | (d, None) \<Rightarrow>
                   if d < 1 \<or> 4 < d then Inl ErrDeviceC
                   else
                     let codeword = loopC [0, 1, 2, 3] f [];
                         codeword = codeword @ conf d;
                         codeword = codeword @ conf g;
                         codeword = codeword @ ''0FF''
                     in Inr (if status then codeword @ ''F'' else codeword @ ''0''))))"

text \<open>
  Type D. \<^verbatim>\<open>strings.ToLower\<close> is applied to a string of one byte here (the length
  test comes first): it maps \<open>A\<close> to \<open>Z\<close> onto \<open>a\<close> to \<open>z\<close>, keeps every other ASCII
  byte, and turns a byte outside ASCII into the encoding of \<^verbatim>\<open>U+FFFD\<close>.
\<close>

definition ToLower1 :: "string \<Rightarrow> string" where
  "ToLower1 s =
     (case s of
        [c] \<Rightarrow>
          (let b = byte c in
           if 0x41 \<le> b \<and> b \<le> 0x5A then [char_of (b + 0x20)]
           else if b < 0x80 then [c]
           else [char_of (0xEF :: nat), char_of (0xBF :: nat), char_of (0xBD :: nat)])
      | _ \<Rightarrow> s)"

definition getCodeWordD :: "string \<Rightarrow> int \<Rightarrow> bool \<Rightarrow> error + string" where
  "getCodeWordD grp device status =
     (if length grp \<noteq> 1 then Inl ErrGroupSingleD
      else
        let l = ToLower1 grp in
        if l \<noteq> ''a'' \<and> l \<noteq> ''b'' \<and> l \<noteq> ''c'' \<and> l \<noteq> ''d'' then Inl ErrGroupD
        else
          let codeword =
                (if l = ''a'' then ''1FFF'' else if l = ''b'' then ''F1FF''
                 else if l = ''c'' then ''FF1F'' else ''FFF1'')
          in
            if device \<noteq> 1 \<and> device \<noteq> 2 \<and> device \<noteq> 3 then Inl ErrDeviceD
            else
              let codeword =
                    (if device = 1 then codeword @ ''1FF''
                     else if device = 2 then codeword @ ''F1F'' else codeword @ ''FF1'');
                  codeword = codeword @ ''000''
              in Inr (if status then codeword @ ''10'' else codeword @ ''01''))"

text \<open>
  The dispatch. When \<^verbatim>\<open>Atoi(group)\<close> fails, the branch taken is the one that calls
  \<^verbatim>\<open>getCodeWordB\<close> with the value \<^verbatim>\<open>Atoi\<close> returned beside the error; when it
  succeeds, \<^verbatim>\<open>getCodeWordD\<close> is called with the group string.
\<close>

definition getCodeWord :: "string \<Rightarrow> string \<Rightarrow> string \<Rightarrow> bool \<Rightarrow> error + string" where
  "getCodeWord family grp device status =
     (if family \<noteq> [] then getCodeWordC family grp device status
      else if 1 < length grp \<and> 1 < length device then getCodeWordA grp device status
      else if length grp = 1 \<and> length device = 1 then
        (case Atoi device of
           (d, Some err) \<Rightarrow> Inl ErrDeviceNotInt
         | (d, None) \<Rightarrow>
            (case Atoi grp of
               (g, Some err) \<Rightarrow> getCodeWordB g d status
             | (g, None) \<Rightarrow> getCodeWordD grp d status))
      else Inl ErrNotSupported)"

subsection \<open>Expander, compiler and transmitter\<close>

fun loopT :: "nat list \<Rightarrow> string \<Rightarrow> string" where
  "loopT [] binary = binary"
| "loopT (c # cs) binary =
     loopT cs
       (if c = rune CHR ''0'' then binary @ ''00''
        else if c = rune CHR ''1'' then binary @ ''11''
        else if c = rune CHR ''F'' then binary @ ''01''
        else binary)"

definition triStateToBinary :: "string \<Rightarrow> string" where
  "triStateToBinary tristate = loopT (runes tristate) []"

fun loopW :: "protocol \<Rightarrow> nat list \<Rightarrow> waveform list \<Rightarrow> waveform list" where
  "loopW prot [] ws = ws"
| "loopW prot (b # bs) ws =
     loopW prot bs (if b = rune CHR ''1'' then ws @ [oneBit prot] else ws @ [zeroBit prot])"

definition binaryToWaveForm :: "string \<Rightarrow> protocol \<Rightarrow> waveform list" where
  "binaryToWaveForm binary prot = loopW prot (runes binary) [] @ [syncBit prot]"

text \<open>
  \<^verbatim>\<open>transmit\<close>: the inner loop writes the first level, holds, writes the second
  level, holds, for each waveform; the outer loop counts \<open>i\<close> from 0 while
  \<open>i < nrRepeat\<close>. \<^verbatim>\<open>time.Microsecond\<close> is 1000 nanoseconds.
\<close>

fun transmitOnce :: "waveform list \<Rightarrow> int \<Rightarrow> level \<Rightarrow> level \<Rightarrow> pin \<Rightarrow> pin" where
  "transmitOnce [] d f s p = p"
| "transmitOnce (w # ws) d f s p =
     transmitOnce ws d f s (p @ [Out f, Sleep (high w * d), Out s, Sleep (low w * d)])"

function transmitFrom :: "int \<Rightarrow> waveform list \<Rightarrow> int \<Rightarrow> level \<Rightarrow> level \<Rightarrow> int \<Rightarrow> pin \<Rightarrow> pin"
  where
  "transmitFrom i ws d f s nr p =
     (if i < nr then transmitFrom (i + 1) ws d f s nr (transmitOnce ws d f s p)
      else p)"
  by pat_completeness auto
termination
  by (relation "measure (\<lambda>(i, ws, d, f, s, nr, p). nat (nr - i))") auto

declare transmitFrom.simps [simp del]

definition transmit :: "waveform list \<Rightarrow> protocol \<Rightarrow> int \<Rightarrow> pin \<Rightarrow> pin" where
  "transmit ws prot nr p =
     (let d = pulseLen prot * 1000;
          f = (if inverted prot then Low else High);
          s = (if inverted prot then High else Low)
      in transmitFrom 0 ws d f s nr p)"

subsection \<open>Switch controller\<close>

definition send :: "RCSwitch \<Rightarrow> string \<Rightarrow> RCSwitch" where
  "send s binary =
     (let ws = binaryToWaveForm binary (protocol s)
      in s\<lparr>pin := transmit ws (protocol s) (nrRepeat s) (pin s)\<rparr>)"

definition sendTriState :: "RCSwitch \<Rightarrow> string \<Rightarrow> RCSwitch" where
  "sendTriState s tristate = send s (triStateToBinary tristate)"

definition SwitchOn :: "RCSwitch \<Rightarrow> string \<Rightarrow> string \<Rightarrow> string \<Rightarrow> RCSwitch \<times> error option"
  where
  "SwitchOn s family grp device =
     (case getCodeWord family grp device True of
        Inl err \<Rightarrow> (s, Some err)
      | Inr code \<Rightarrow>
          (let s = sendTriState s code
           in (s\<lparr>isOn := (isOn s)(grp @ device \<mapsto> True)\<rparr>, None)))"

definition SwitchOff :: "RCSwitch \<Rightarrow> string \<Rightarrow> string \<Rightarrow> string \<Rightarrow> RCSwitch \<times> error option"
  where
  "SwitchOff s family grp device =
     (case getCodeWord family grp device False of
        Inl err \<Rightarrow> (s, Some err)
      | Inr code \<Rightarrow>
          (let s = sendTriState s code
           in (s\<lparr>isOn := (isOn s)(grp @ device \<mapsto> False)\<rparr>, None)))"

text \<open>Reading a Go map at a key it does not hold gives the zero value, \<open>false\<close>.\<close>

definition IsOn :: "RCSwitch \<Rightarrow> string \<Rightarrow> string \<Rightarrow> bool" where
  "IsOn s grp device = (case isOn s (grp @ device) of None \<Rightarrow> False | Some b \<Rightarrow> b)"

text \<open>The number of level writes in a trace.\<close>

fun writes :: "pin \<Rightarrow> nat" where
  "writes [] = 0"
| "writes (Out l # es) = Suc (writes es)"
| "writes (Sleep t # es) = writes es"

text \<open>
  The expansion table in the specification's words: \<open>0\<close> becomes \<open>00\<close>, \<open>1\<close> becomes
  \<open>11\<close>, \<open>F\<close> becomes \<open>01\<close>, and any other character contributes nothing. It is
  the reference the expander of the code is compared with.
\<close>

definition expand_sym :: "char \<Rightarrow> string" where
  "expand_sym c =
     (if c = CHR ''0'' then ''00'' else if c = CHR ''1'' then ''11''
      else if c = CHR ''F'' then ''01'' else [])"

subsection \<open>Helper facts about the loops\<close>

lemma decodeRune_ascii: "byte c < 0x80 \<Longrightarrow> decodeRune (c # cs) = (rune c, 1)"
  by (simp add: byte_def rune_def)

lemma runes_ascii: "list_all (\<lambda>c. byte c < 0x80) s \<Longrightarrow> runes s = map rune s"
  by (induction s) (simp_all add: decodeRune_ascii del: decodeRune.simps)

lemma rune_inj: "(rune a = rune b) = (a = b)"
  by (simp add: rune_def)

lemma loopA_eq:
  "loopA bs codeword =
     codeword @ map (\<lambda>b. if b = rune CHR ''0'' then CHR ''F'' else CHR ''0'') bs"
  by (induction bs arbitrary: codeword) simp_all

lemma loopT_eq:
  "loopT cs binary =
     binary @ concat (map (\<lambda>c. if c = rune CHR ''0'' then ''00''
        else if c = rune CHR ''1'' then ''11''
        else if c = rune CHR ''F'' then ''01'' else []) cs)"
  by (induction cs arbitrary: binary) simp_all

lemma loopW_eq:
  "loopW prot bs ws =
     ws @ map (\<lambda>b. if b = rune CHR ''1'' then oneBit prot else zeroBit prot) bs"
  by (induction bs arbitrary: ws) simp_all

lemma writes_append: "writes (p @ q) = writes p + writes q"
  by (induction p rule: writes.induct) simp_all

lemma writes_transmitOnce: "writes (transmitOnce ws d f s p) = writes p + 2 * length ws"
  by (induction ws arbitrary: p) (simp_all add: writes_append)

lemma writes_transmitFrom:
  "writes (transmitFrom i ws d f s nr p) = writes p + nat (nr - i) * (2 * length ws)"
proof (induction i ws d f s nr p rule: transmitFrom.induct)
  case (1 i ws d f s nr p)
  show ?case
  proof (cases "i < nr")
    case True
    then have n: "nat (nr - i) = Suc (nat (nr - (i + 1)))" by simp
    from True 1 show ?thesis
      by (subst transmitFrom.simps) (simp add: writes_transmitOnce n)
  next
    case False
    then show ?thesis by (subst transmitFrom.simps) simp
  qed
qed

lemma parseDigits_single:
  "9 \<le> m \<Longrightarrow> parseDigits 10 m 0 [c] =
     (case digitVal c of None \<Rightarrow> Inl ErrSyntax
      | Some d \<Rightarrow> if 10 \<le> d then Inl ErrSyntax else Inr d)"
  by (auto split: option.splits)

lemma Atoi_single:
  "Atoi [c] =
     (case digitVal c of None \<Rightarrow> (0, Some (NumError ''Atoi'' [c] ErrSyntax))
      | Some d \<Rightarrow> if 10 \<le> d then (0, Some (NumError ''Atoi'' [c] ErrSyntax))
                  else (int d, None))"
proof (cases "c = CHR ''+'' \<or> c = CHR ''-''")
  case True
  then show ?thesis by (auto simp: Atoi_def digitVal_def byte_def)
next
  case False
  then show ?thesis
    unfolding Atoi_def Let_def
    by (simp add: parseDigits_single del: parseDigits.simps split: option.splits)
qed

lemma Atoi_single_fail: "length g = 1 \<Longrightarrow> Atoi g = (v, Some e) \<Longrightarrow> v = 0"
  by (cases g) (auto simp: Atoi_single split: if_splits option.splits)

lemma Atoi_single_ok: "length g = 1 \<Longrightarrow> Atoi g = (v, None) \<Longrightarrow> 0x30 \<le> byte (hd g) \<and> byte (hd g) \<le> 0x39"
  by (cases g) (auto simp: Atoi_single digitVal_def Let_def split: if_splits option.splits)

text \<open>
  With an empty family and a group and a device of one byte each, the dispatch never
  reaches an encoder that accepts its arguments: a group that is a number goes to
  \<open>getCodeWordD\<close>, which wants a letter, and a group that is no number goes to
  \<open>getCodeWordB\<close> as the number 0.
\<close>

lemma getCodeWord_BD_fails:
  assumes "length grp = 1" "length device = 1"
  shows "\<exists>e. getCodeWord [] grp device status = Inl e"
proof -
  obtain d de where d: "Atoi device = (d, de)" by (cases "Atoi device")
  obtain g ge where g: "Atoi grp = (g, ge)" by (cases "Atoi grp")
  show ?thesis
  proof (cases de)
    case (Some a)
    with assms d show ?thesis by (simp add: getCodeWord_def)
  next
    case None
    show ?thesis
    proof (cases ge)
      case (Some a)
      with g assms have "g = 0" using Atoi_single_fail by blast
      with assms d g None Some show ?thesis by (simp add: getCodeWord_def getCodeWordB_def)
    next
      case n: None
      from g n assms obtain c where c: "grp = [c]" "0x30 \<le> byte c" "byte c \<le> 0x39"
        using Atoi_single_ok[of grp g] by (cases grp) auto
      then have "getCodeWordD grp d status = Inl ErrGroupD"
        by (auto simp: getCodeWordD_def ToLower1_def byte_def Let_def)
      with assms d g None n show ?thesis by (simp add: getCodeWord_def)
    qed
  qed
qed

text \<open>
  A byte outside ASCII never decodes to an ASCII rune, and the bytes one decoding step
  consumes after it are outside ASCII too: an ASCII byte is always a rune of its own.
\<close>

lemma mod_shift: "q * m \<le> (a::nat) \<Longrightarrow> a < q * m + m \<Longrightarrow> a mod m = a - q * m"
proof -
  assume h: "q * m \<le> a" "a < q * m + m"
  then have "a = q * m + (a - q * m)" "a - q * m < m" by simp_all
  then have "a mod m = (q * m + (a - q * m)) mod m" by simp
  also have "\<dots> = (a - q * m) mod m" by (simp only: mod_mult_self3)
  also have "\<dots> = a - q * m" using \<open>a - q * m < m\<close> by simp
  finally show ?thesis .
qed

lemma two_byte: "194 \<le> (a::nat) \<Longrightarrow> a < 224 \<Longrightarrow> 128 \<le> (a mod 32) * 64 + b mod 64"
  using mod_shift [of 6 32 a] by simp

lemma three_byte:
  assumes "224 \<le> (a::nat)" "a < 240" "(if a = 224 then 160 else 128) \<le> b" "b \<le> 191"
  shows "128 \<le> (a mod 16) * 4096 + (b mod 64) * 64 + c mod 64"
proof (cases "a = 224")
  case True
  with assms have "b mod 64 = b - 128" using mod_shift [of 2 64 b] by simp
  with True assms show ?thesis by simp
next
  case False
  with assms have "a mod 16 = a - 224" using mod_shift [of 14 16 a] by simp
  with False assms show ?thesis by simp
qed

lemma four_byte:
  assumes "240 \<le> (a::nat)" "a \<le> 244" "(if a = 240 then 144 else 128) \<le> b" "b \<le> 191"
  shows "128 \<le> (a mod 8) * 262144 + (b mod 64) * 4096 + (c mod 64) * 64 + d mod 64"
proof (cases "a = 240")
  case True
  with assms have "b mod 64 = b - 128" using mod_shift [of 2 64 b] by simp
  with True assms show ?thesis by simp
next
  case False
  with assms have "a mod 8 = a - 240" using mod_shift [of 30 8 a] by simp
  with False assms show ?thesis by simp
qed


lemma decodeRune_rune_high:
  assumes "0x80 \<le> byte c"
  shows "0x80 \<le> fst (decodeRune (c # cs))"
proof -
  let ?s0 = "byte c"
  consider "?s0 < 0xC2 \<or> 0xF4 < ?s0" | "0xC2 \<le> ?s0" "?s0 < 0xE0" | "0xE0 \<le> ?s0" "?s0 < 0xF0"
    | "0xF0 \<le> ?s0" "?s0 \<le> 0xF4" by linarith
  then show ?thesis
  proof cases
    case 1
    with assms show ?thesis by (auto simp: Let_def RuneError_def)
  next
    case 2
    with assms show ?thesis using two_byte [of ?s0 "byte (cs ! 0)"]
      by (simp add: Let_def RuneError_def)
  next
    case 3
    with assms show ?thesis using three_byte [of ?s0 "byte (cs ! 0)" "byte (cs ! 1)"]
      by (auto simp: Let_def RuneError_def not_less split: if_splits)
  next
    case 4
    with assms show ?thesis
      using four_byte [of ?s0 "byte (cs ! 0)" "byte (cs ! 1)" "byte (cs ! 2)"]
      by (auto simp: Let_def RuneError_def not_less split: if_splits)
  qed
qed


lemma decodeRune_bytes_high:
  assumes "0x80 \<le> byte c"
  shows "list_all (\<lambda>x. 0x80 \<le> byte x) (take (snd (decodeRune (c # cs))) (c # cs))"
proof (cases cs)
  case Nil
  with assms show ?thesis by (auto simp: Let_def)
next
  case c1: (Cons c1 cs1)
  show ?thesis
  proof (cases cs1)
    case Nil
    with assms c1 show ?thesis by (auto simp: Let_def)
  next
    case c2: (Cons c2 cs2)
    show ?thesis
    proof (cases cs2)
      case Nil
      with assms c1 c2 show ?thesis by (auto simp: Let_def)
    next
      case c3: (Cons c3 cs3)
      with assms c1 c2 show ?thesis by (auto simp: Let_def)
    qed
  qed
qed


lemma rune_vals: "rune CHR ''0'' = 48" "rune CHR ''1'' = 49" "rune CHR ''F'' = 70"
  by (simp_all add: rune_def)

lemma byte_vals: "byte CHR ''0'' = 48" "byte CHR ''1'' = 49" "byte CHR ''F'' = 70"
  by (simp_all add: byte_def)

lemma expand_sym_high_byte: "0x80 \<le> byte x \<Longrightarrow> expand_sym x = []"
proof -
  assume h: "0x80 \<le> byte x"
  have "x \<noteq> CHR ''0''" "x \<noteq> CHR ''1''" "x \<noteq> CHR ''F''"
    using h byte_vals by fastforce+
  then show ?thesis by (simp add: expand_sym_def)
qed

lemma expand_sym_high: "list_all (\<lambda>x. 0x80 \<le> byte x) s \<Longrightarrow> concat (map expand_sym s) = []"
  by (induction s) (simp_all add: expand_sym_high_byte)

lemma loopT_high_step: "0x80 \<le> r \<Longrightarrow> loopT (r # rs) binary = loopT rs binary"
  by (simp add: rune_vals)

lemma concat_map_split:
  "concat (map f (take n xs)) @ concat (map f (drop n xs)) = concat (map f xs)"
  by (simp only: concat_append [symmetric] map_append [symmetric] append_take_drop_id)

lemma loopT_ascii_step: "loopT (rune c # rs) binary = loopT rs (binary @ expand_sym c)"
  by (simp add: expand_sym_def rune_inj)

text \<open>
  Hence the expander, which ranges over runes, does what the table says byte by byte,
  on every string.
\<close>

lemma loopT_runes: "loopT (runes s) binary = binary @ concat (map expand_sym s)"
proof (induction s arbitrary: binary rule: runes.induct)
  case 1
  show ?case by simp
next
  case (2 c cs)
  let ?w = "snd (decodeRune (c # cs))"
  let ?r = "fst (decodeRune (c # cs))"
  have ru: "runes (c # cs) = ?r # runes (drop ?w (c # cs))"
    by (simp only: runes.simps)
  show ?case
  proof (cases "byte c < 0x80")
    case True
    then have d: "decodeRune (c # cs) = (rune c, 1)" by (rule decodeRune_ascii)
    have "loopT (runes (c # cs)) binary = loopT (runes (drop ?w (c # cs))) (binary @ expand_sym c)"
      by (simp only: ru d fst_conv loopT_ascii_step)
    also have "\<dots> = (binary @ expand_sym c) @ concat (map expand_sym (drop ?w (c # cs)))"
      by (rule 2)
    also have "\<dots> = binary @ concat (map expand_sym (c # cs))"
      by (simp add: d del: decodeRune.simps)
    finally show ?thesis .
  next
    case False
    then have h: "0x80 \<le> byte c" by simp
    have r: "0x80 \<le> ?r" using h by (rule decodeRune_rune_high)
    have e: "concat (map expand_sym (take ?w (c # cs))) = []"
      using decodeRune_bytes_high [OF h] by (rule expand_sym_high)
    have "loopT (runes (c # cs)) binary = loopT (runes (drop ?w (c # cs))) binary"
      by (simp only: ru loopT_high_step [OF r])
    also have "\<dots> = binary @ concat (map expand_sym (drop ?w (c # cs)))"
      by (rule 2)
    also have "\<dots> = binary @ concat (map expand_sym (take ?w (c # cs)))
        @ concat (map expand_sym (drop ?w (c # cs)))"
      by (simp only: e append_Nil)
    also have "\<dots> = binary @ concat (map expand_sym (c # cs))"
      by (simp only: concat_map_split)
    finally show ?thesis .
  qed
qed

lemma triStateToBinary_eq: "triStateToBinary s = concat (map expand_sym s)"
  by (simp add: triStateToBinary_def loopT_runes)

lemma expand_sym_fun:
  "expand_sym = (\<lambda>c. if c = CHR ''0'' then ''00'' else if c = CHR ''1'' then ''11''
      else if c = CHR ''F'' then ''01'' else [])"
  by (rule ext) (simp add: expand_sym_def)

lemma length_concat_expand:
  "list_all (\<lambda>c. c = CHR ''0'' \<or> c = CHR ''1'' \<or> c = CHR ''F'') s
   \<Longrightarrow> length (concat (map expand_sym s)) = 2 * length s"
  by (induction s) (auto simp: expand_sym_def)

lemma binary_concat_expand:
  "list_all (\<lambda>c. c = CHR ''0'' \<or> c = CHR ''1'') (concat (map expand_sym s))"
  by (induction s) (auto simp: expand_sym_def)

lemma binary_ascii:
  "list_all (\<lambda>c. c = CHR ''0'' \<or> c = CHR ''1'') s \<Longrightarrow> list_all (\<lambda>c. byte c < 0x80) s"
  by (induction s) (auto simp: byte_def)

lemma binaryToWaveForm_ascii:
  "list_all (\<lambda>c. byte c < 0x80) b \<Longrightarrow>
   binaryToWaveForm b prot =
     map (\<lambda>c. if c = CHR ''1'' then oneBit prot else zeroBit prot) b @ [syncBit prot]"
  unfolding binaryToWaveForm_def
  by (simp add: runes_ascii loopW_eq rune_inj comp_def cong: if_cong)

lemma getCodeWord_A:
  "1 < length grp \<Longrightarrow> 1 < length device \<Longrightarrow>
   getCodeWord [] grp device status = getCodeWordA grp device status"
  by (simp add: getCodeWord_def)

lemma writes_transmit:
  "writes (transmit ws prot nr p) = writes p + nat nr * (2 * length ws)"
  by (simp add: transmit_def Let_def writes_transmitFrom)

lemma length_binaryToWaveForm:
  "length (binaryToWaveForm binary prot) = length (runes binary) + 1"
  by (simp add: binaryToWaveForm_def loopW_eq)

lemma writes_send:
  "writes (pin (send s binary)) =
     writes (pin s) + nat (nrRepeat s) * (2 * length (runes binary) + 2)"
  by (simp add: send_def Let_def writes_transmit length_binaryToWaveForm)

subsection \<open>Configuration: properties\<close>

lemma length_protocols: "length protocols = 6"
  by (simp add: protocols_def)

text \<open>
  C7. \<^verbatim>\<open>SetProtocol(n)\<close> returns an error exactly when \<open>n\<close> is outside 1..6; in
  particular it fails for 0 and 7 and succeeds for 1, 2, 3, 4, 5 and 6.
\<close>

theorem SetProtocol_error_iff:
  "(snd (SetProtocol s n) \<noteq> None) = (n < 1 \<or> 6 < n)
   \<and> snd (SetProtocol s 0) = Some (ErrProtocol 0 6)
   \<and> snd (SetProtocol s 7) = Some (ErrProtocol 7 6)
   \<and> list_all (\<lambda>k. snd (SetProtocol s k) = None) [1, 2, 3, 4, 5, 6]"
  by (auto simp: SetProtocol_def length_protocols)

theorem SetProtocol_error_iff_witness:
  "snd (SetProtocol (NewRCSwitch []) 7) \<noteq> None
   \<and> snd (SetProtocol (NewRCSwitch []) 6) = None
   \<and> protocol (fst (SetProtocol (NewRCSwitch []) 6)) = protocols ! 5"
  using SetProtocol_error_iff [of "NewRCSwitch []" 7]
    SetProtocol_error_iff [of "NewRCSwitch []" 6]
  by (simp add: SetProtocol_def length_protocols)

text \<open>
  C10. When \<^verbatim>\<open>SetProtocol\<close> or \<^verbatim>\<open>SetRepeat\<close> returns an error the controller is
  unchanged; in particular the active protocol and the repeat count keep their values.
\<close>

theorem config_error_unchanged:
  "(snd (SetProtocol s n) \<noteq> None \<longrightarrow>
      fst (SetProtocol s n) = s
      \<and> protocol (fst (SetProtocol s n)) = protocol s
      \<and> nrRepeat (fst (SetProtocol s n)) = nrRepeat s)
   \<and> (snd (SetRepeat s m) \<noteq> None \<longrightarrow>
      fst (SetRepeat s m) = s
      \<and> protocol (fst (SetRepeat s m)) = protocol s
      \<and> nrRepeat (fst (SetRepeat s m)) = nrRepeat s)"
  by (simp add: SetProtocol_def SetRepeat_def)

theorem config_error_unchanged_witness:
  "snd (SetProtocol (NewRCSwitch []) 7) \<noteq> None
   \<and> snd (SetRepeat (NewRCSwitch []) (- 5)) \<noteq> None
   \<and> fst (SetProtocol (NewRCSwitch []) 7) = NewRCSwitch []
   \<and> fst (SetRepeat (NewRCSwitch []) (- 5)) = NewRCSwitch []
   \<and> nrRepeat (fst (SetRepeat (NewRCSwitch []) (- 5))) = 10
   \<and> protocol (fst (SetProtocol (NewRCSwitch []) 7)) = protocols ! 0"
proof -
  have p: "snd (SetProtocol (NewRCSwitch []) 7) \<noteq> None"
    by (simp add: SetProtocol_def length_protocols)
  have r: "snd (SetRepeat (NewRCSwitch []) (- 5)) \<noteq> None"
    by (simp add: SetRepeat_def)
  have v: "nrRepeat (NewRCSwitch []) = 10" "protocol (NewRCSwitch []) = protocols ! 0"
    by (simp_all add: NewRCSwitch_def SetProtocol_def SetPin_def length_protocols)
  from config_error_unchanged [of "NewRCSwitch []" 7 "- 5"] p r v
  show ?thesis by simp
qed

subsection \<open>Encoder dispatch\<close>

text \<open>
  C1. The claim: with an empty family and a group and a device of one character each,
  where the device is a number, a group that is a number selects the Type B encoder and
  a group that is a letter selects the Type D encoder. The code does the opposite. For
  group \<open>1\<close> and device \<open>2\<close> the dispatch calls the Type D encoder, which rejects the
  group, although the Type B encoder would return \<open>0FFFF0FFFFFF\<close>; for group \<open>a\<close> it calls
  the Type B encoder with group number 0, which rejects it, although the Type D encoder
  would return \<open>1FFFF1F00010\<close>.
\<close>

theorem dispatch_B_D_swapped:
  "getCodeWord [] ''1'' ''2'' True = getCodeWordD ''1'' 2 True
   \<and> getCodeWord [] ''1'' ''2'' True = Inl ErrGroupD
   \<and> getCodeWordB 1 2 True = Inr ''0FFFF0FFFFFF''
   \<and> getCodeWord [] ''a'' ''2'' True = getCodeWordB 0 2 True
   \<and> getCodeWord [] ''a'' ''2'' True = Inl ErrRangeB
   \<and> getCodeWordD ''a'' 2 True = Inr ''1FFFF1F00010''"
  by (simp add: getCodeWord_def Atoi_single digitVal_def byte_def getCodeWordD_def
      getCodeWordB_def ToLower1_def)

subsection \<open>Tracked state after a Type B command\<close>

text \<open>
  C2. The claim: after \<^verbatim>\<open>SwitchOn("", "1", "2")\<close> the switch is reported on, after
  \<^verbatim>\<open>SwitchOff\<close> it is reported off, and a key never commanded is reported off. On
  any controller the code rejects \<^verbatim>\<open>SwitchOn("", "1", "2")\<close> with the Type D group
  error and leaves the controller as it was, so on a new controller \<^verbatim>\<open>IsOn("1", "2")\<close>
  stays false; \<^verbatim>\<open>SwitchOff\<close> is rejected the same way. A new controller reports false
  for every key.
\<close>

theorem SwitchOn_type_B_rejected:
  "snd (SwitchOn s [] ''1'' ''2'') = Some ErrGroupD
   \<and> fst (SwitchOn s [] ''1'' ''2'') = s
   \<and> IsOn (fst (SwitchOn (NewRCSwitch p) [] ''1'' ''2'')) ''1'' ''2'' = False
   \<and> snd (SwitchOff s [] ''1'' ''2'') = Some ErrGroupD
   \<and> fst (SwitchOff s [] ''1'' ''2'') = s
   \<and> IsOn (NewRCSwitch p) g d = False"
  by (simp add: SwitchOn_def SwitchOff_def getCodeWord_def Atoi_single digitVal_def byte_def
      getCodeWordD_def ToLower1_def IsOn_def NewRCSwitch_def SetProtocol_def SetPin_def
      length_protocols)

subsection \<open>Type C device and group symbols\<close>

text \<open>
  C3. The claim: for \<open>i\<close> from 1 to 4, the second symbol of \<open>conf i\<close> is \<open>F\<close> when bit 1
  of \<open>i - 1\<close> is set, so that \<open>conf 3\<close> and \<open>conf 4\<close> differ from \<open>conf 1\<close> and
  \<open>conf 2\<close> in it. In the code the second test compares \<open>iu AND 2\<close> with 1, which never
  holds: the second symbol is always \<open>0\<close>, \<open>conf 3\<close> equals \<open>conf 1\<close> and \<open>conf 4\<close>
  equals \<open>conf 2\<close>, and devices 1 and 3 of a group get the same codeword.
\<close>

theorem conf_second_symbol_constant:
  "conf 1 = ''00'' \<and> conf 2 = ''F0'' \<and> conf 3 = ''00'' \<and> conf 4 = ''F0''
   \<and> getCodeWordC ''a'' ''1'' ''3'' True = Inr ''0F0F00000FFF''
   \<and> getCodeWordC ''a'' ''1'' ''1'' True = Inr ''0F0F00000FFF''"
  by (simp add: conf_def getCodeWordC_def ParseUint_16_8_def Atoi_single digitVal_def byte_def
      drop_bit_Suc)

subsection \<open>Expander and compiler\<close>

text \<open>
  C6. For every tri-state codeword over the alphabet 0, 1, F the expander maps \<open>0\<close> to
  \<open>00\<close>, \<open>1\<close> to \<open>11\<close> and \<open>F\<close> to \<open>01\<close>, so the result is twice as long as the
  codeword; compiling it under any protocol gives one waveform per bit (\<open>oneBit\<close> for
  \<open>1\<close>, \<open>zeroBit\<close> otherwise) and the sync waveform at the end, \<open>2 * length codeword + 1\<close>
  waveforms. On any string \<open>s\<close> at all the expander follows the same table and skips
  every other character, and the compiler gives \<open>oneBit\<close> for each character \<open>1\<close> of
  any string \<open>b\<close>, \<open>zeroBit\<close> for each other character, and the sync waveform.
\<close>

theorem expand_compile_shape:
  assumes "list_all (\<lambda>c. c = CHR ''0'' \<or> c = CHR ''1'' \<or> c = CHR ''F'') codeword"
  shows "triStateToBinary codeword = concat (map expand_sym codeword)
    \<and> length (triStateToBinary codeword) = 2 * length codeword
    \<and> binaryToWaveForm (triStateToBinary codeword) prot =
        map (\<lambda>b. if b = CHR ''1'' then oneBit prot else zeroBit prot)
          (triStateToBinary codeword) @ [syncBit prot]
    \<and> length (binaryToWaveForm (triStateToBinary codeword) prot) = 2 * length codeword + 1
    \<and> triStateToBinary s = concat (map expand_sym s)
    \<and> binaryToWaveForm b prot =
        map (\<lambda>r. if r = rune CHR ''1'' then oneBit prot else zeroBit prot) (runes b)
          @ [syncBit prot]"
proof -
  have e: "triStateToBinary codeword = concat (map expand_sym codeword)"
    by (rule triStateToBinary_eq)
  have l: "length (triStateToBinary codeword) = 2 * length codeword"
    using assms by (simp add: e length_concat_expand)
  have b: "list_all (\<lambda>c. byte c < 0x80) (triStateToBinary codeword)"
    unfolding e by (rule binary_ascii) (rule binary_concat_expand)
  have w: "binaryToWaveForm (triStateToBinary codeword) prot =
        map (\<lambda>b. if b = CHR ''1'' then oneBit prot else zeroBit prot)
          (triStateToBinary codeword) @ [syncBit prot]"
    using b by (rule binaryToWaveForm_ascii)
  have lw: "length (binaryToWaveForm (triStateToBinary codeword) prot) = 2 * length codeword + 1"
    by (simp add: w l)
  have g: "binaryToWaveForm b prot =
        map (\<lambda>r. if r = rune CHR ''1'' then oneBit prot else zeroBit prot) (runes b)
          @ [syncBit prot]"
    by (simp add: binaryToWaveForm_def loopW_eq)
  from e l w lw g triStateToBinary_eq [of s] show ?thesis by simp
qed

theorem expand_compile_shape_witness:
  "triStateToBinary ''0F1'' = ''000111''
   \<and> length (binaryToWaveForm (triStateToBinary ''0F1'') (protocols ! 0)) = 7
   \<and> binaryToWaveForm (triStateToBinary ''0F1'') (protocols ! 0) =
       [wave 1 3, wave 1 3, wave 1 3, wave 3 1, wave 3 1, wave 3 1, wave 1 31]
   \<and> triStateToBinary [CHR ''0'', CHR ''x'', CHR 0xC3, CHR 0xA9, CHR ''1'', CHR 0xFF, CHR ''F'']
       = ''001101''"
proof -
  have h1: "list_all (\<lambda>c. c = CHR ''0'' \<or> c = CHR ''1'' \<or> c = CHR ''F'') ''0F1''" by simp
  note th = expand_compile_shape [OF h1, of "protocols ! 0"
      "[CHR ''0'', CHR ''x'', CHR 0xC3, CHR 0xA9, CHR ''1'', CHR 0xFF, CHR ''F'']"]
  from th have t: "triStateToBinary ''0F1'' = ''000111''"
    by (simp add: expand_sym_def)
  from th have w: "binaryToWaveForm (triStateToBinary ''0F1'') (protocols ! 0) =
      map (\<lambda>b. if b = CHR ''1'' then oneBit (protocols ! 0) else zeroBit (protocols ! 0))
        (triStateToBinary ''0F1'') @ [syncBit (protocols ! 0)]"
    by blast
  from th have s:
    "triStateToBinary [CHR ''0'', CHR ''x'', CHR 0xC3, CHR 0xA9, CHR ''1'', CHR 0xFF, CHR ''F'']
       = ''001101''"
    by (simp add: expand_sym_def)
  show ?thesis
    unfolding w by (simp add: t s protocols_def)
qed

subsection \<open>Type A codewords\<close>

text \<open>
  C4, as claimed: every Type A input whose group and device are exactly 5 characters each
  gives a codeword of 12 symbols. The code measures the two strings in bytes and then
  ranges over the characters of their concatenation. A group of 5 bytes that holds a
  two-byte character (here \<open>e\<close> with an acute accent, bytes C3 A9, then \<open>000\<close>) passes the
  length tests and gives 11 symbols; the same character followed by \<open>0000\<close> is 5
  characters in 6 bytes and is rejected.
\<close>

theorem type_A_non_ascii_counterexample:
  "length [CHR 0xC3, CHR 0xA9, CHR ''0'', CHR ''0'', CHR ''0''] = 5
   \<and> length ''10000'' = 5
   \<and> getCodeWord [] [CHR 0xC3, CHR 0xA9, CHR ''0'', CHR ''0'', CHR ''0''] ''10000'' True
       = Inr ''0FFF0FFFF0F''
   \<and> length ''0FFF0FFFF0F'' = 11
   \<and> length (runes [CHR 0xC3, CHR 0xA9, CHR ''0'', CHR ''0'', CHR ''0'', CHR ''0'']) = 5
   \<and> getCodeWord [] [CHR 0xC3, CHR 0xA9, CHR ''0'', CHR ''0'', CHR ''0'', CHR ''0''] ''10000''
         True = Inl ErrGroupLen"
  by (simp add: getCodeWord_def getCodeWordA_def byte_def rune_def)

text \<open>
  C4, amended: for every group and device of exactly 5 bytes each, all of them ASCII
  (in particular for every pair of 5-character binary strings), the encoder returns a
  codeword of 12 symbols: one symbol per input character (\<open>F\<close> for \<open>0\<close>, \<open>0\<close> for any
  other character), then \<open>0F\<close> when the status is on and \<open>F0\<close> when it is off. Family
  empty, group \<open>11011\<close>, device \<open>10000\<close>, status on gives \<open>00F000FFFF0F\<close>.
\<close>

theorem type_A_shape:
  assumes "length grp = 5" and "length device = 5"
    and "list_all (\<lambda>c. byte c < 0x80) (grp @ device)"
  shows "(\<exists>codeword.
      getCodeWord [] grp device status = Inr codeword
      \<and> length codeword = 12
      \<and> drop 10 codeword = (if status then ''0F'' else ''F0'')
      \<and> take 10 codeword =
          map (\<lambda>c. if c = CHR ''0'' then CHR ''F'' else CHR ''0'') (grp @ device))
    \<and> getCodeWord [] ''11011'' ''10000'' True = Inr ''00F000FFFF0F''"
proof -
  have r: "runes (grp @ device) = map rune (grp @ device)"
    using assms(3) by (rule runes_ascii)
  have d: "getCodeWord [] grp device status = getCodeWordA grp device status"
    using assms(1,2) by (simp add: getCodeWord_A)
  have g: "getCodeWord [] ''11011'' ''10000'' True = Inr ''00F000FFFF0F''"
    by (simp add: getCodeWord_def getCodeWordA_def runes_ascii byte_def rune_def)
  show ?thesis
    unfolding d getCodeWordA_def using assms(1,2)
    by (simp add: g [unfolded getCodeWord_A] r loopA_eq rune_inj comp_def del: map_append)
qed

theorem type_A_shape_witness:
  "getCodeWord [] ''00000'' ''11111'' False = Inr ''FFFFF00000F0''
   \<and> getCodeWord [] ''ab0 1'' ''1000x'' True = Inr ''00F000FFF00F''"
proof -
  have h: "length ''00000'' = 5" "length ''11111'' = 5"
    "list_all (\<lambda>c. byte c < 0x80) (''00000'' @ ''11111'')"
    by (simp_all add: byte_def)
  from type_A_shape [OF h, of False] obtain cw where
    cw: "getCodeWord [] ''00000'' ''11111'' False = Inr cw" "length cw = 12"
      "drop 10 cw = ''F0''" "take 10 cw = ''FFFFF00000''"
    by auto
  have "cw = take 10 cw @ drop 10 cw" by simp
  with cw have a: "getCodeWord [] ''00000'' ''11111'' False = Inr ''FFFFF00000F0''" by simp
  have k: "length ''ab0 1'' = 5" "length ''1000x'' = 5"
    "list_all (\<lambda>c. byte c < 0x80) (''ab0 1'' @ ''1000x'')"
    by (simp_all add: byte_def)
  from type_A_shape [OF k, of True] obtain cv where
    cv: "getCodeWord [] ''ab0 1'' ''1000x'' True = Inr cv" "length cv = 12"
      "drop 10 cv = ''0F''" "take 10 cv = ''00F000FFF0''"
    by auto
  have "cv = take 10 cv @ drop 10 cv" by simp
  with cv have b: "getCodeWord [] ''ab0 1'' ''1000x'' True = Inr ''00F000FFF00F''" by simp
  from a b show ?thesis by simp
qed

subsection \<open>Repeat count and pin writes\<close>

text \<open>
  C5. Once \<^verbatim>\<open>SetRepeat(n)\<close> has succeeded (so \<open>n\<close> is positive; 3 is accepted), sending
  a binary string writes the pin exactly \<open>n * (2 * length binary + 2)\<close> times: two
  writes for each of the \<open>length binary + 1\<close> waveforms, \<open>n\<close> times over. The same
  count holds for the binary string a tri-state codeword expands to.
  \<^verbatim>\<open>SetRepeat(0)\<close> and \<^verbatim>\<open>SetRepeat(-5)\<close> fail.
\<close>

theorem transmission_writes:
  assumes "SetRepeat s n = (s', None)"
    and "list_all (\<lambda>c. c = CHR ''0'' \<or> c = CHR ''1'') binary"
  shows "0 < n
    \<and> nrRepeat s' = n
    \<and> writes (pin (send s' binary)) = writes (pin s') + nat n * (2 * length binary + 2)
    \<and> writes (pin (sendTriState s' tristate)) =
        writes (pin s') + nat n * (2 * length (triStateToBinary tristate) + 2)
    \<and> snd (SetRepeat s 0) = Some ErrRepeat
    \<and> snd (SetRepeat s (- 5)) = Some ErrRepeat
    \<and> snd (SetRepeat s 3) = None"
proof -
  from assms(1) have n: "0 < n" "nrRepeat s' = n"
    by (auto simp: SetRepeat_def split: if_splits)
  have "runes binary = map rune binary"
    using assms(2) by (intro runes_ascii binary_ascii)
  then have l: "length (runes binary) = length binary" by simp
  have "list_all (\<lambda>c. byte c < 0x80) (triStateToBinary tristate)"
    unfolding triStateToBinary_eq by (rule binary_ascii) (rule binary_concat_expand)
  then have "runes (triStateToBinary tristate) = map rune (triStateToBinary tristate)"
    by (rule runes_ascii)
  then have t: "length (runes (triStateToBinary tristate)) = length (triStateToBinary tristate)"
    by simp
  show ?thesis
    using n by (simp add: sendTriState_def writes_send l t SetRepeat_def)
qed

theorem transmission_writes_witness:
  "writes (pin (send (fst (SetRepeat (NewRCSwitch []) 3)) ''0110'')) = 30"
proof -
  have h: "SetRepeat (NewRCSwitch []) 3 = (fst (SetRepeat (NewRCSwitch []) 3), None)"
    by (simp add: SetRepeat_def)
  have b: "list_all (\<lambda>c. c = CHR ''0'' \<or> c = CHR ''1'') ''0110''" by simp
  have p: "pin (fst (SetRepeat (NewRCSwitch []) 3)) = []"
    by (simp add: SetRepeat_def NewRCSwitch_def SetProtocol_def SetPin_def length_protocols)
  from transmission_writes [OF h b] show ?thesis by (simp add: p)
qed

subsection \<open>Commands that fail validation\<close>

text \<open>
  C8. When \<^verbatim>\<open>SwitchOn\<close> or \<^verbatim>\<open>SwitchOff\<close> returns an error, the encoder has rejected
  the input, nothing has been written to the pin and the state map is unchanged. When
  they succeed, the pin trace is the one left by the transmission of the codeword and
  the map differs from the old one at the key \<open>grp @ device\<close> only.
\<close>

theorem switch_error_no_effect:
  "(snd (SwitchOn s family grp device) \<noteq> None \<longrightarrow>
      (\<exists>err. getCodeWord family grp device True = Inl err)
      \<and> fst (SwitchOn s family grp device) = s
      \<and> pin (fst (SwitchOn s family grp device)) = pin s
      \<and> isOn (fst (SwitchOn s family grp device)) = isOn s)
   \<and> (snd (SwitchOff s family grp device) \<noteq> None \<longrightarrow>
      (\<exists>err. getCodeWord family grp device False = Inl err)
      \<and> fst (SwitchOff s family grp device) = s
      \<and> pin (fst (SwitchOff s family grp device)) = pin s
      \<and> isOn (fst (SwitchOff s family grp device)) = isOn s)
   \<and> (snd (SwitchOn s family grp device) = None \<longrightarrow>
      (\<exists>code. getCodeWord family grp device True = Inr code
         \<and> pin (fst (SwitchOn s family grp device)) = pin (sendTriState s code))
      \<and> isOn (fst (SwitchOn s family grp device)) = (isOn s)(grp @ device \<mapsto> True))
   \<and> (snd (SwitchOff s family grp device) = None \<longrightarrow>
      (\<exists>code. getCodeWord family grp device False = Inr code
         \<and> pin (fst (SwitchOff s family grp device)) = pin (sendTriState s code))
      \<and> isOn (fst (SwitchOff s family grp device)) = (isOn s)(grp @ device \<mapsto> False))"
  by (simp add: SwitchOn_def SwitchOff_def sendTriState_def send_def Let_def split: sum.splits)

theorem switch_error_no_effect_witness:
  "snd (SwitchOn (NewRCSwitch []) ''g'' ''1'' ''2'') = Some (NumError ''ParseUint'' ''g'' ErrSyntax)
   \<and> snd (SwitchOff (NewRCSwitch []) ''a'' ''5'' ''2'') = Some ErrGroupC
   \<and> pin (fst (SwitchOn (NewRCSwitch []) ''g'' ''1'' ''2'')) = []
   \<and> isOn (fst (SwitchOn (NewRCSwitch []) ''g'' ''1'' ''2'')) = Map.empty
   \<and> pin (fst (SwitchOff (NewRCSwitch []) ''a'' ''5'' ''2'')) = []
   \<and> isOn (fst (SwitchOff (NewRCSwitch []) ''a'' ''5'' ''2'')) = Map.empty
   \<and> snd (SwitchOn (NewRCSwitch []) ''a'' ''1'' ''2'') = None
   \<and> isOn (fst (SwitchOn (NewRCSwitch []) ''a'' ''1'' ''2'')) = [''12'' \<mapsto> True]
   \<and> snd (SwitchOff (NewRCSwitch []) ''a'' ''1'' ''2'') = None
   \<and> isOn (fst (SwitchOff (NewRCSwitch []) ''a'' ''1'' ''2'')) = [''12'' \<mapsto> False]"
proof -
  have e1: "snd (SwitchOn (NewRCSwitch []) ''g'' ''1'' ''2'')
      = Some (NumError ''ParseUint'' ''g'' ErrSyntax)"
    by (simp add: SwitchOn_def getCodeWord_def getCodeWordC_def ParseUint_16_8_def
        digitVal_def byte_def)
  have e2: "snd (SwitchOff (NewRCSwitch []) ''a'' ''5'' ''2'') = Some ErrGroupC"
    by (simp add: SwitchOff_def getCodeWord_def getCodeWordC_def ParseUint_16_8_def
        Atoi_single digitVal_def byte_def)
  have g: "getCodeWord ''a'' ''1'' ''2'' True = Inr ''0F0FF0000FFF''"
      "getCodeWord ''a'' ''1'' ''2'' False = Inr ''0F0FF0000FF0''"
    by (simp_all add: getCodeWord_def getCodeWordC_def ParseUint_16_8_def conf_def
        Atoi_single digitVal_def byte_def drop_bit_Suc)
  have o1: "snd (SwitchOn (NewRCSwitch []) ''a'' ''1'' ''2'') = None"
    by (simp add: SwitchOn_def g Let_def)
  have o2: "snd (SwitchOff (NewRCSwitch []) ''a'' ''1'' ''2'') = None"
    by (simp add: SwitchOff_def g Let_def)
  have n: "pin (NewRCSwitch []) = []" "isOn (NewRCSwitch []) = Map.empty"
    by (simp_all add: NewRCSwitch_def SetProtocol_def SetPin_def length_protocols)
  from switch_error_no_effect [of "NewRCSwitch []" "''g''" "''1''" "''2''"] e1
  have a: "pin (fst (SwitchOn (NewRCSwitch []) ''g'' ''1'' ''2'')) = []"
    "isOn (fst (SwitchOn (NewRCSwitch []) ''g'' ''1'' ''2'')) = Map.empty"
    by (simp_all add: n)
  from switch_error_no_effect [of "NewRCSwitch []" "''a''" "''5''" "''2''"] e2
  have b: "pin (fst (SwitchOff (NewRCSwitch []) ''a'' ''5'' ''2'')) = []"
    "isOn (fst (SwitchOff (NewRCSwitch []) ''a'' ''5'' ''2'')) = Map.empty"
    by (simp_all add: n)
  from switch_error_no_effect [of "NewRCSwitch []" "''a''" "''1''" "''2''"] o1 o2
  have c: "isOn (fst (SwitchOn (NewRCSwitch []) ''a'' ''1'' ''2'')) = [''12'' \<mapsto> True]"
    "isOn (fst (SwitchOff (NewRCSwitch []) ''a'' ''1'' ''2'')) = [''12'' \<mapsto> False]"
    by (simp_all add: n)
  from e1 e2 a b o1 o2 c show ?thesis by simp
qed

subsection \<open>The key of the state map\<close>

text \<open>
  C9. The key of the state map is the concatenation of group and device: whenever
  \<open>g1 @ d1 = g2 @ d2\<close>, a successful \<^verbatim>\<open>SwitchOn(family, g1, d1)\<close> makes
  \<^verbatim>\<open>IsOn(g2, d2)\<close> true, and in every state the two pairs read the same entry, as
  \<open>("1", "23")\<close> and \<open>("12", "3")\<close> do.
\<close>

theorem key_is_concatenation:
  assumes "g1 @ d1 = g2 @ d2"
    and "snd (SwitchOn s family g1 d1) = None"
  shows "IsOn (fst (SwitchOn s family g1 d1)) g2 d2 = True
    \<and> IsOn s g1 d1 = IsOn s g2 d2
    \<and> IsOn s ''1'' ''23'' = IsOn s ''12'' ''3''"
  using assms
  by (auto simp: SwitchOn_def IsOn_def Let_def split: sum.splits)

theorem key_is_concatenation_witness:
  "snd (SwitchOn (NewRCSwitch []) [] ''11011'' ''10000'') = None
   \<and> IsOn (fst (SwitchOn (NewRCSwitch []) [] ''11011'' ''10000'')) ''110'' ''1110000''
   \<and> IsOn (NewRCSwitch []) ''110'' ''1110000'' = False"
proof -
  have g: "getCodeWord [] ''11011'' ''10000'' True = Inr ''00F000FFFF0F''"
    by (simp add: getCodeWord_def getCodeWordA_def runes_ascii byte_def rune_def)
  have o: "snd (SwitchOn (NewRCSwitch []) [] ''11011'' ''10000'') = None"
    by (simp add: SwitchOn_def g Let_def)
  have k: "''11011'' @ ''10000'' = ''110'' @ ''1110000''" by simp
  have n: "IsOn (NewRCSwitch []) ''110'' ''1110000'' = False"
    by (simp add: IsOn_def NewRCSwitch_def SetProtocol_def SetPin_def length_protocols)
  from key_is_concatenation [OF k o] o n show ?thesis by simp
qed

end
